theory Spec2Isabelle
  imports Main
begin

section \<open>Strings and values of the source language\<close>

text \<open>
  A JavaScript string is a sequence of code units. The development models the strings whose
  code units are below 256 (Latin-1) as \<^typ>\<open>string\<close>: every operation of the two source
  functions (regular expression search, \<^verbatim>\<open>replace\<close>, \<^verbatim>\<open>split\<close>, \<^verbatim>\<open>join\<close>,
  \<^verbatim>\<open>toLowerCase\<close>, \<^verbatim>\<open>includes\<close>) maps such strings to such strings, and \<^verbatim>\<open>length\<close>
  counts code units, as \<^const>\<open>length\<close> does here.
\<close>

definition LF :: char where "LF = CHR 0x0A"
definition CR :: char where "CR = CHR 0x0D"
definition SP :: char where "SP = CHR 0x20"

text \<open>
  The letters with a case in Latin-1, as pairs (upper, lower): A-Z, and U+00C0-U+00DE without
  the multiplication sign U+00D7. \<^verbatim>\<open>toLowerCase\<close> maps each upper one to its partner and leaves
  every other code unit below 256 as it is.
\<close>

definition caseTable :: "(char \<times> char) list" where
  "caseTable = zip
     (''ABCDEFGHIJKLMNOPQRSTUVWXYZ'' @
      [CHR 0xC0, CHR 0xC1, CHR 0xC2, CHR 0xC3, CHR 0xC4, CHR 0xC5, CHR 0xC6, CHR 0xC7,
       CHR 0xC8, CHR 0xC9, CHR 0xCA, CHR 0xCB, CHR 0xCC, CHR 0xCD, CHR 0xCE, CHR 0xCF,
       CHR 0xD0, CHR 0xD1, CHR 0xD2, CHR 0xD3, CHR 0xD4, CHR 0xD5, CHR 0xD6,
       CHR 0xD8, CHR 0xD9, CHR 0xDA, CHR 0xDB, CHR 0xDC, CHR 0xDD, CHR 0xDE])
     (''abcdefghijklmnopqrstuvwxyz'' @
      [CHR 0xE0, CHR 0xE1, CHR 0xE2, CHR 0xE3, CHR 0xE4, CHR 0xE5, CHR 0xE6, CHR 0xE7,
       CHR 0xE8, CHR 0xE9, CHR 0xEA, CHR 0xEB, CHR 0xEC, CHR 0xED, CHR 0xEE, CHR 0xEF,
       CHR 0xF0, CHR 0xF1, CHR 0xF2, CHR 0xF3, CHR 0xF4, CHR 0xF5, CHR 0xF6,
       CHR 0xF8, CHR 0xF9, CHR 0xFA, CHR 0xFB, CHR 0xFC, CHR 0xFD, CHR 0xFE])"

definition lowerChar :: "char \<Rightarrow> char" where
  "lowerChar c = (case map_of caseTable c of Some l \<Rightarrow> l | None \<Rightarrow> c)"

definition toLowerCase :: "string \<Rightarrow> string" where
  "toLowerCase s = map lowerChar s"

text \<open>
  Canonicalize of the regular expression semantics under the flag \<^verbatim>\<open>i\<close> (without \<^verbatim>\<open>u\<close>):
  the upper-case form of a code unit when that is one code unit, except that a code unit
  from 128 on never canonicalizes to one below 128. The upper-case forms of U+00B5 and U+00FF
  lie beyond Latin-1 and U+00DF has none of one code unit; they are left fixed here, which
  changes no comparison with the ASCII characters the patterns of the source consist of.
\<close>

definition canonicalize :: "char \<Rightarrow> char" where
  "canonicalize c = (case map_of (map (\<lambda>(u, l). (l, u)) caseTable) c of Some u \<Rightarrow> u | None \<Rightarrow> c)"

text \<open>
  The record both functions exchange. A field that is \<^verbatim>\<open>null\<close> in the source is
  \<^const>\<open>None\<close> here; the order of the fields is the order of the keys in the object literal
  of \<^verbatim>\<open>getMetadata\<close>, which is the order \<^verbatim>\<open>Object.values\<close> lists them in.
\<close>

record Metadata =
  url :: "string option"
  siteName :: "string option"
  title :: "string option"
  description :: "string option"
  "keywords" :: "string list option"
  author :: "string option"

text \<open>
  The values an argument of the two exported functions can be. Numbers are represented by the
  integers and NaN, which is all their truthiness depends on; \<open>JSObject\<close> stands for every
  value whose \<^verbatim>\<open>typeof\<close> is \<^verbatim>\<open>object\<close> and that is neither \<^verbatim>\<open>null\<close> nor an array, \<open>JSSymbol\<close>
  and \<open>JSFunction\<close> for every symbol and function. The elements of an array are metadata
  records, as the parameter type \<^verbatim>\<open>Metadata[]\<close> of the source says.
\<close>

datatype js_value =
    JSUndefined
  | JSNull
  | JSBoolean bool
  | JSNumber int
  | JSNaN
  | JSBigInt int
  | JSString string
  | JSSymbol
  | JSFunction
  | JSArray "Metadata list"
  | JSObject

fun truthy :: "js_value \<Rightarrow> bool" where
  "truthy JSUndefined = False"
| "truthy JSNull = False"
| "truthy (JSBoolean b) = b"
| "truthy (JSNumber n) = (n \<noteq> 0)"
| "truthy JSNaN = False"
| "truthy (JSBigInt n) = (n \<noteq> 0)"
| "truthy (JSString s) = (s \<noteq> [])"
| "truthy JSSymbol = True"
| "truthy JSFunction = True"
| "truthy (JSArray ms) = True"
| "truthy JSObject = True"

text \<open>The operator \<^verbatim>\<open>!\<close>.\<close>

definition js_not :: "js_value \<Rightarrow> bool" where
  "js_not v = (\<not> truthy v)"

fun typeof :: "js_value \<Rightarrow> string" where
  "typeof JSUndefined = ''undefined''"
| "typeof JSNull = ''object''"
| "typeof (JSBoolean b) = ''boolean''"
| "typeof (JSNumber n) = ''number''"
| "typeof JSNaN = ''number''"
| "typeof (JSBigInt n) = ''bigint''"
| "typeof (JSString s) = ''string''"
| "typeof JSSymbol = ''symbol''"
| "typeof JSFunction = ''function''"
| "typeof (JSArray ms) = ''object''"
| "typeof JSObject = ''object''"

fun isArray :: "js_value \<Rightarrow> bool" where
  "isArray (JSArray ms) = True"
| "isArray v = False"

section \<open>Regular expressions of the source\<close>

text \<open>
  The patterns of \<^verbatim>\<open>NODES_REG_EXPS\<close> are sequences of four kinds of node over three kinds of
  character class: a literal character (compared after canonicalization, all patterns carry
  the flag \<^verbatim>\<open>i\<close>), \<^verbatim>\<open>\s\<close>, and the dot. A node is one character of a class, a greedy star
  \<^verbatim>\<open>x*\<close>, a greedy option \<^verbatim>\<open>x?\<close>, or the capturing group \<^verbatim>\<open>(x*?)\<close> with its lazy star.
\<close>

datatype char_class = Lit char | WhiteSpace | AnyChar

datatype node = One char_class | Star char_class | Opt char_class | LazyGroup char_class

type_synonym regexp = "node list"

text \<open>
  \<^verbatim>\<open>\s\<close> below 256: tab, line feed, vertical tab, form feed, carriage return, space and the
  no-break space. The dot matches everything but the line terminators.
\<close>

definition whiteSpaceChars :: "char list" where
  "whiteSpaceChars = [CHR 0x09, CHR 0x0A, CHR 0x0B, CHR 0x0C, CHR 0x0D, CHR 0x20, CHR 0xA0]"

fun accepts :: "char_class \<Rightarrow> char \<Rightarrow> bool" where
  "accepts (Lit p) x = (canonicalize x = canonicalize p)"
| "accepts WhiteSpace x = (x \<in> set whiteSpaceChars)"
| "accepts AnyChar x = (x \<noteq> LF \<and> x \<noteq> CR)"

text \<open>
  The backtracking matcher at one start position. The result is \<^const>\<open>None\<close> when the pattern
  does not match there, and the text of the capturing group otherwise. Alternatives are
  tried in the order of the language: a greedy node first takes a character and gives it
  back when the rest fails, the lazy group first tries the rest and takes a character when
  that fails. Every pattern of the source has exactly one group; the nodes after it return
  the empty text, which the group replaces by what it captured.
\<close>

fun matchHere :: "regexp \<Rightarrow> string \<Rightarrow> string option" where
  "matchHere [] s = Some []"
| "matchHere (One c # r) s =
     (case s of [] \<Rightarrow> None
      | x # xs \<Rightarrow> if accepts c x then matchHere r xs else None)"
| "matchHere (Star c # r) s =
     (case s of [] \<Rightarrow> matchHere r []
      | x # xs \<Rightarrow>
          if accepts c x
          then (case matchHere (Star c # r) xs of Some g \<Rightarrow> Some g | None \<Rightarrow> matchHere r s)
          else matchHere r s)"
| "matchHere (Opt c # r) s =
     (case s of [] \<Rightarrow> matchHere r []
      | x # xs \<Rightarrow>
          if accepts c x
          then (case matchHere r xs of Some g \<Rightarrow> Some g | None \<Rightarrow> matchHere r s)
          else matchHere r s)"
| "matchHere (LazyGroup c # r) s =
     (case matchHere r s of Some g \<Rightarrow> Some []
      | None \<Rightarrow>
          (case s of [] \<Rightarrow> None
           | x # xs \<Rightarrow>
               if accepts c x
               then map_option ((#) x) (matchHere (LazyGroup c # r) xs)
               else None))"

text \<open>
  \<^verbatim>\<open>RegExp.prototype.exec\<close> of a pattern without the flags \<^verbatim>\<open>g\<close> and \<^verbatim>\<open>y\<close>: the search starts
  at index 0 and takes the leftmost position where the pattern matches. The result is the
  element 1 of the match, or \<^const>\<open>None\<close> for \<^verbatim>\<open>null\<close>.
\<close>

fun exec :: "regexp \<Rightarrow> string \<Rightarrow> string option" where
  "exec p [] = matchHere p []"
| "exec p (x # xs) = (case matchHere p (x # xs) of Some g \<Rightarrow> Some g | None \<Rightarrow> exec p xs)"

definition lits :: "string \<Rightarrow> regexp" where
  "lits s = map (\<lambda>c. One (Lit c)) s"

definition NODES_REG_EXPS_head :: regexp where
  \<open>NODES_REG_EXPS_head = lits ''<head>'' @ [LazyGroup AnyChar] @ lits ''</head>''\<close>

definition NODES_REG_EXPS_title :: regexp where
  \<open>NODES_REG_EXPS_title = lits ''<title>'' @ [LazyGroup AnyChar] @ lits ''</title>''\<close>

text \<open>
  The six patterns for \<^verbatim>\<open>meta\<close> elements differ in the attribute only:
  \<^verbatim>\<open><meta\s*ATTR\s*content="(.*?)"\s*\/?>\<close>.
\<close>

definition metaRegExp :: "string \<Rightarrow> regexp" where
  \<open>metaRegExp attr =
     lits ''<meta'' @ [Star WhiteSpace] @ lits attr @ [Star WhiteSpace] @ lits ''content="'' @
     [LazyGroup AnyChar] @ lits ''"'' @ [Star WhiteSpace, Opt (Lit CHR ''/''), One (Lit CHR ''>'')]\<close>

definition NODES_REG_EXPS_url :: regexp where
  \<open>NODES_REG_EXPS_url = metaRegExp ''property="og:url"''\<close>

definition NODES_REG_EXPS_siteName :: regexp where
  \<open>NODES_REG_EXPS_siteName = metaRegExp ''property="og:site_name"''\<close>

definition NODES_REG_EXPS_description :: regexp where
  \<open>NODES_REG_EXPS_description = metaRegExp ''property="og:description"''\<close>

definition NODES_REG_EXPS_description2 :: regexp where
  \<open>NODES_REG_EXPS_description2 = metaRegExp ''name="description"''\<close>

definition NODES_REG_EXPS_keywords :: regexp where
  \<open>NODES_REG_EXPS_keywords = metaRegExp ''name="keywords"''\<close>

definition NODES_REG_EXPS_author :: regexp where
  \<open>NODES_REG_EXPS_author = metaRegExp ''name="author"''\<close>

text \<open>
  \<^verbatim>\<open>html.replace(NEWLINE_REGEXP, rep)\<close> for \<^verbatim>\<open>/\r?\n|\r/g\<close>: at each position the first
  alternative takes a carriage return with the line feed after it, or a line feed alone; the
  second a carriage return alone. Every match is replaced, the search goes on behind it.
\<close>

fun replace_NEWLINE_REGEXP :: "string \<Rightarrow> string \<Rightarrow> string" where
  "replace_NEWLINE_REGEXP rep [] = []"
| "replace_NEWLINE_REGEXP rep [x] = (if x = LF \<or> x = CR then rep else [x])"
| "replace_NEWLINE_REGEXP rep (x # y # s) =
     (if x = CR \<and> y = LF then rep @ replace_NEWLINE_REGEXP rep s
      else if x = LF \<or> x = CR then rep @ replace_NEWLINE_REGEXP rep (y # s)
      else x # replace_NEWLINE_REGEXP rep (y # s))"

section \<open>getMetadata\<close>

text \<open>
  \<^verbatim>\<open>getNodeValue(html, node)\<close>. Its first argument is a string or, when no head was found,
  \<^verbatim>\<open>null\<close>; \<^verbatim>\<open>exec\<close> converts its argument to a string, so \<^verbatim>\<open>null\<close> is searched as the
  text \<^verbatim>\<open>null\<close>.
\<close>

definition toString :: "string option \<Rightarrow> string" where
  "toString v = (case v of None \<Rightarrow> ''null'' | Some s \<Rightarrow> s)"

definition getNodeValue :: "string option \<Rightarrow> regexp \<Rightarrow> string option" where
  "getNodeValue html node = exec node (toString html)"

text \<open>\<^verbatim>\<open>a || b\<close> on values that are a string or \<^verbatim>\<open>null\<close>: \<^verbatim>\<open>a\<close> when it is a non-empty string.\<close>

definition js_or :: "string option \<Rightarrow> string option \<Rightarrow> string option" where
  "js_or a b = (case a of None \<Rightarrow> b | Some s \<Rightarrow> if s = [] then b else Some s)"

text \<open>
  \<^verbatim>\<open>s.split(",")\<close>, and in general the split of a string at every character of a class, which
  is also what \<^verbatim>\<open>split\<close> does with a pattern that is one character class. The pieces between
  the separators are kept, the empty ones too; a string without a separator is one piece.
\<close>

fun splitAt :: "(char \<Rightarrow> bool) \<Rightarrow> string \<Rightarrow> string list" where
  "splitAt P [] = [[]]"
| "splitAt P (x # xs) =
     (if P x then [] # splitAt P xs
      else (case splitAt P xs of [] \<Rightarrow> [[x]] | w # ws \<Rightarrow> (x # w) # ws))"

definition allAbsent :: Metadata where
  "allAbsent = \<lparr>url = None, siteName = None, title = None, description = None,
                keywords = None, author = None\<rparr>"

text \<open>
  \<^verbatim>\<open>getMetadata(html)\<close>. The keywords are
  \<^verbatim>\<open>getNodeValue(head, keywords)?.split(",").filter((keyword) => !!keyword) || null\<close>: without
  a match the optional chain gives \<^verbatim>\<open>undefined\<close> and \<^verbatim>\<open>||\<close> turns it into \<^verbatim>\<open>null\<close>; with a
  match the left operand is an array, and an array is truthy whatever its length, so it is
  the result. No step of the function throws: the model has no error value.
\<close>

definition getMetadata :: "js_value \<Rightarrow> Metadata" where
  "getMetadata html =
     (if js_not html \<or> typeof html \<noteq> ''string'' then allAbsent
      else
        (case html of
           JSString h \<Rightarrow>
             let flatHtml = replace_NEWLINE_REGEXP '' '' h;
                 head = getNodeValue (Some flatHtml) NODES_REG_EXPS_head
             in \<lparr>url = getNodeValue head NODES_REG_EXPS_url,
                 siteName = getNodeValue head NODES_REG_EXPS_siteName,
                 title = getNodeValue head NODES_REG_EXPS_title,
                 description =
                   js_or (getNodeValue head NODES_REG_EXPS_description)
                         (getNodeValue head NODES_REG_EXPS_description2),
                 keywords =
                   (case getNodeValue head NODES_REG_EXPS_keywords of
                      None \<Rightarrow> None
                    | Some v \<Rightarrow>
                        Some (filter (\<lambda>keyword. keyword \<noteq> []) (splitAt (\<lambda>c. c = CHR '','') v))),
                 author = getNodeValue head NODES_REG_EXPS_author\<rparr>
         | _ \<Rightarrow> allAbsent))"

section \<open>filterMetadata\<close>

text \<open>
  \<^verbatim>\<open>SPECIAL_CHARS_REGEXP\<close> is one character class, \<^verbatim>\<open>/[@#$%^&*_=+.,-]/g\<close>: the thirteen
  characters listed, the hyphen at the end being a literal one.
\<close>

definition SPECIAL_CHARS_REGEXP :: "char \<Rightarrow> bool" where
  "SPECIAL_CHARS_REGEXP c = (c \<in> set ''@#$%^&*_=+.,-'')"

text \<open>
  \<^verbatim>\<open>handleSpecialChars(word)\<close>. \<^verbatim>\<open>word.match\<close> of a global pattern is \<^verbatim>\<open>null\<close> exactly when
  no character of the word is in the class; \<^verbatim>\<open>replace\<close> with the empty string removes every
  character of the class.
\<close>

definition handleSpecialChars :: "string \<Rightarrow> string list" where
  "handleSpecialChars word =
     (if \<not> list_ex SPECIAL_CHARS_REGEXP word then [word]
      else
        let splittedBySpecialChars = splitAt SPECIAL_CHARS_REGEXP word;
            specialCharsRemoved = filter (\<lambda>c. \<not> SPECIAL_CHARS_REGEXP c) word
        in splittedBySpecialChars @ [specialCharsRemoved, word])"

text \<open>
  \<^verbatim>\<open>getQueryArray(query)\<close>: \<^verbatim>\<open>reduce\<close> runs over the words from left to right and pushes the
  tokens of each on the accumulator, which starts empty.
\<close>

definition getQueryArray :: "string \<Rightarrow> string list" where
  "getQueryArray query =
     filter (\<lambda>word. length word > 1)
       (foldl (\<lambda>words currentWord. words @ handleSpecialChars currentWord) []
          (splitAt (\<lambda>c. c = SP) query))"

text \<open>
  The values of a record as \<^verbatim>\<open>Object.values\<close> lists them, and \<^verbatim>\<open>Array.prototype.join\<close>:
  an element that is \<^verbatim>\<open>null\<close> is rendered as the empty string, a string as itself, and an array
  by its \<^verbatim>\<open>toString\<close>, which joins its elements with commas.
\<close>

datatype field_value = FNull | FString string | FArray "string list"

definition Object_values :: "Metadata \<Rightarrow> field_value list" where
  "Object_values metadata =
     [case_option FNull FString (url metadata),
      case_option FNull FString (siteName metadata),
      case_option FNull FString (title metadata),
      case_option FNull FString (description metadata),
      case_option FNull FArray (keywords metadata),
      case_option FNull FString (author metadata)]"

fun joinStrings :: "string \<Rightarrow> string list \<Rightarrow> string" where
  "joinStrings sep [] = []"
| "joinStrings sep [x] = x"
| "joinStrings sep (x # y # r) = x @ sep @ joinStrings sep (y # r)"

fun elementText :: "field_value \<Rightarrow> string" where
  "elementText FNull = []"
| "elementText (FString s) = s"
| "elementText (FArray ks) = joinStrings '','' ks"

definition join :: "string \<Rightarrow> field_value list \<Rightarrow> string" where
  "join sep vs = joinStrings sep (map elementText vs)"

definition formatMetadataValues :: "Metadata \<Rightarrow> string" where
  "formatMetadataValues metadata =
     toLowerCase (filter (\<lambda>c. \<not> SPECIAL_CHARS_REGEXP c) (join '' '' (Object_values metadata)))"

text \<open>\<^verbatim>\<open>s.includes(t)\<close>: \<^verbatim>\<open>t\<close> occurs in \<^verbatim>\<open>s\<close> at some position.\<close>

fun startsWith :: "string \<Rightarrow> string \<Rightarrow> bool" where
  "startsWith s [] = True"
| "startsWith [] (y # ys) = False"
| "startsWith (x # xs) (y # ys) = (x = y \<and> startsWith xs ys)"

fun includesStr :: "string \<Rightarrow> string \<Rightarrow> bool" where
  "includesStr [] t = startsWith [] t"
| "includesStr (x # xs) t = (startsWith (x # xs) t \<or> includesStr xs t)"

definition doesMetadataMatch :: "Metadata \<Rightarrow> string list \<Rightarrow> bool" where
  "doesMetadataMatch metadata query =
     (let values = formatMetadataValues metadata
      in list_ex (\<lambda>word. includesStr values (toLowerCase word)) query)"

text \<open>
  \<^verbatim>\<open>filterMetadata(metadata, query)\<close>. Behind the first check the first argument is an array
  and the second a string; \<^verbatim>\<open>!query\<close> holds for the empty string only, and then the array
  itself is returned.
\<close>

definition filterMetadata :: "js_value \<Rightarrow> js_value \<Rightarrow> Metadata list" where
  "filterMetadata metadata query =
     (if (js_not metadata \<or> \<not> isArray metadata) \<or> typeof query \<noteq> ''string'' then []
      else
        (case (metadata, query) of
           (JSArray ms, JSString q) \<Rightarrow>
             if js_not query then ms
             else
               let queryArray = getQueryArray q
               in filter (\<lambda>m. doesMetadataMatch m queryArray) ms
         | _ \<Rightarrow> []))"

section \<open>Notions of the specification\<close>

text \<open>
  A token is a case-insensitive literal substring of a text when the text has, at some
  position, as many characters as the token has, each equal to the corresponding character
  of the token up to case.
\<close>

fun ci_prefix :: "string \<Rightarrow> string \<Rightarrow> bool" where
  "ci_prefix [] s = True"
| "ci_prefix (a # t) [] = False"
| "ci_prefix (a # t) (b # s) = (lowerChar a = lowerChar b \<and> ci_prefix t s)"

fun ci_substring :: "string \<Rightarrow> string \<Rightarrow> bool" where
  "ci_substring t [] = ci_prefix t []"
| "ci_substring t (b # s) = (ci_prefix t (b # s) \<or> ci_substring t s)"

text \<open>
  The text of a record the specification matches against: the six field values, each in
  lower case, joined by single spaces, with every special character stripped from the
  combined string.
\<close>

definition spec_combinedText :: "Metadata \<Rightarrow> string" where
  "spec_combinedText m =
     filter (\<lambda>c. \<not> SPECIAL_CHARS_REGEXP c)
       (joinStrings '' '' (map (\<lambda>v. toLowerCase (elementText v)) (Object_values m)))"

section \<open>Evaluation of the case tables\<close>

text \<open>
  The two case mappings on the eight bits of a code unit. A letter with a case has bit 6 set,
  bit 5 tells lower from upper, and the remaining bits say whether the position holds a
  letter: 1 to 26 below 128, everything but 23 and 31 from 192 on.
\<close>

lemma map_of_caseTable:
  "map_of caseTable (Char b0 b1 b2 b3 b4 b5 b6 b7) =
     (if \<not> b5 \<and> b6 \<and> (if b7 then \<not> (b0 \<and> b1 \<and> b2 \<and> b4)
                     else (b0 \<or> b1 \<or> b2 \<or> b3 \<or> b4) \<and> \<not> (b4 \<and> b3 \<and> (b2 \<or> (b1 \<and> b0))))
      then Some (Char b0 b1 b2 b3 b4 True b6 b7) else None)"
  unfolding caseTable_def zip.simps append.simps list.case map_of.simps fst_conv snd_conv
    fun_upd_apply char.inject
  by (cases b5; cases b6; cases b7; cases b4; cases b3; cases b2; cases b1; cases b0; simp)

lemma map_of_caseTable_inverse:
  "map_of (map (\<lambda>(u, l). (l, u)) caseTable) (Char b0 b1 b2 b3 b4 b5 b6 b7) =
     (if b5 \<and> b6 \<and> (if b7 then \<not> (b0 \<and> b1 \<and> b2 \<and> b4)
                     else (b0 \<or> b1 \<or> b2 \<or> b3 \<or> b4) \<and> \<not> (b4 \<and> b3 \<and> (b2 \<or> (b1 \<and> b0))))
      then Some (Char b0 b1 b2 b3 b4 False b6 b7) else None)"
  unfolding caseTable_def zip.simps append.simps list.case list.map prod.case map_of.simps
    fst_conv snd_conv fun_upd_apply char.inject
  by (cases b5; cases b6; cases b7; cases b4; cases b3; cases b2; cases b1; cases b0; simp)

lemma lowerChar_Char:
  "lowerChar (Char b0 b1 b2 b3 b4 b5 b6 b7) =
     Char b0 b1 b2 b3 b4
       (b5 \<or> (b6 \<and> (if b7 then \<not> (b0 \<and> b1 \<and> b2 \<and> b4)
                     else (b0 \<or> b1 \<or> b2 \<or> b3 \<or> b4) \<and> \<not> (b4 \<and> b3 \<and> (b2 \<or> (b1 \<and> b0))))))
       b6 b7"
  unfolding lowerChar_def map_of_caseTable by auto

lemma canonicalize_Char:
  "canonicalize (Char b0 b1 b2 b3 b4 b5 b6 b7) =
     Char b0 b1 b2 b3 b4
       (b5 \<and> \<not> (b6 \<and> (if b7 then \<not> (b0 \<and> b1 \<and> b2 \<and> b4)
                     else (b0 \<or> b1 \<or> b2 \<or> b3 \<or> b4) \<and> \<not> (b4 \<and> b3 \<and> (b2 \<or> (b1 \<and> b0))))))
       b6 b7"
  unfolding canonicalize_def map_of_caseTable_inverse by auto

section \<open>Evaluation of the matcher\<close>

text \<open>
  The equations of the matcher by the shape of the text, so that a search on a text whose
  beginning is known runs exactly as far as the text is known.
\<close>

lemma matchHere_One_Nil: "matchHere (One c # r) [] = None"
  by simp

lemma matchHere_One_Cons: "matchHere (One c # r) (x # xs) = (if accepts c x then matchHere r xs else None)"
  by simp

lemma matchHere_Star_Nil: "matchHere (Star c # r) [] = matchHere r []"
  by simp

lemma matchHere_Star_Cons: "matchHere (Star c # r) (x # xs) =
  (if accepts c x
   then (case matchHere (Star c # r) xs of Some g \<Rightarrow> Some g | None \<Rightarrow> matchHere r (x # xs))
   else matchHere r (x # xs))"
  by simp

lemma matchHere_Opt_Nil: "matchHere (Opt c # r) [] = matchHere r []"
  by simp

lemma matchHere_Opt_Cons: "matchHere (Opt c # r) (x # xs) =
  (if accepts c x
   then (case matchHere r xs of Some g \<Rightarrow> Some g | None \<Rightarrow> matchHere r (x # xs))
   else matchHere r (x # xs))"
  by simp

lemma matchHere_LazyGroup_Nil: "matchHere (LazyGroup c # r) [] =
  (case matchHere r [] of Some g \<Rightarrow> Some [] | None \<Rightarrow> None)"
  by (cases "matchHere r []") simp_all

lemma matchHere_LazyGroup_Cons: "matchHere (LazyGroup c # r) (x # xs) =
  (case matchHere r (x # xs) of Some g \<Rightarrow> Some []
   | None \<Rightarrow> if accepts c x then map_option ((#) x) (matchHere (LazyGroup c # r) xs) else None)"
  by (cases "matchHere r (x # xs)") simp_all

lemmas matchHere_eval = matchHere.simps(1) matchHere_One_Nil matchHere_One_Cons matchHere_Star_Nil
  matchHere_Star_Cons matchHere_Opt_Nil matchHere_Opt_Cons matchHere_LazyGroup_Nil
  matchHere_LazyGroup_Cons

declare matchHere.simps(2-5) [simp del]

declare exec.simps [simp del]

lemmas regexp_eval = matchHere_eval exec.simps
  NODES_REG_EXPS_head_def NODES_REG_EXPS_title_def NODES_REG_EXPS_url_def
  NODES_REG_EXPS_siteName_def NODES_REG_EXPS_description_def NODES_REG_EXPS_description2_def
  NODES_REG_EXPS_keywords_def NODES_REG_EXPS_author_def metaRegExp_def lits_def
  canonicalize_Char whiteSpaceChars_def LF_def CR_def

lemmas getMetadata_eval = getMetadata_def getNodeValue_def toString_def js_or_def js_not_def
  allAbsent_def regexp_eval

lemmas filter_eval = getQueryArray_def handleSpecialChars_def SPECIAL_CHARS_REGEXP_def SP_def
  formatMetadataValues_def spec_combinedText_def Object_values_def join_def toLowerCase_def
  doesMetadataMatch_def lowerChar_Char allAbsent_def

section \<open>Facts about the case mappings\<close>

lemma canonicalize_lowerChar: "canonicalize x = canonicalize p \<Longrightarrow> lowerChar p = lowerChar x"
  by (cases p; cases x) (auto simp: canonicalize_Char lowerChar_Char split: if_splits)

lemma accepts_quote: \<open>accepts (Lit (CHR ''"'')) c = (c = CHR ''"'')\<close>
  by (cases c) (auto simp: canonicalize_Char)

lemma lowerChar_SP: "lowerChar c = SP \<longleftrightarrow> c = SP"
  by (cases c) (auto simp: lowerChar_Char SP_def)

lemma lowerChar_SP_eq [simp]: "lowerChar SP = SP"
  by (simp add: lowerChar_SP)

lemma lowerChar_idem: "lowerChar (lowerChar c) = lowerChar c"
  by (cases c) (auto simp: lowerChar_Char)

lemma lowerChar_special_Char:
  "SPECIAL_CHARS_REGEXP (lowerChar (Char b0 b1 b2 b3 b4 b5 b6 b7)) =
   SPECIAL_CHARS_REGEXP (Char b0 b1 b2 b3 b4 b5 b6 b7)"
  by (cases b5; cases b6; cases b7; cases b4; cases b3; cases b2; cases b1; cases b0;
      simp add: lowerChar_Char SPECIAL_CHARS_REGEXP_def)

lemma lowerChar_special: "SPECIAL_CHARS_REGEXP (lowerChar c) = SPECIAL_CHARS_REGEXP c"
  by (cases c) (simp add: lowerChar_special_Char)

section \<open>Facts about the search\<close>

text \<open>
  The lazy group runs over a stretch of characters it accepts on which the rest of the
  pattern cannot start.
\<close>

lemma lazy_skip:
  "\<forall>c\<in>set X. accepts cls c \<and> \<not> accepts k c \<Longrightarrow>
   matchHere (LazyGroup cls # One k # r) (X @ s) =
     map_option ((@) X) (matchHere (LazyGroup cls # One k # r) s)"
proof (induction X)
  case Nil
  show ?case by (simp add: option.map_ident)
next
  case (Cons x X)
  then show ?case
    by (simp add: matchHere_LazyGroup_Cons matchHere_One_Cons option.map_comp comp_def)
qed

text \<open>Where a pattern that begins with literal characters matches, the text has them, up to case.\<close>

lemma ci_prefix_Nil [simp]: "ci_prefix t [] = (t = [])"
  by (cases t) simp_all

lemma matchHere_lits_sound:
  "matchHere (lits t @ r) s = Some g \<Longrightarrow> ci_prefix t s"
proof (induction t arbitrary: s)
  case Nil
  show ?case by simp
next
  case (Cons a t)
  then show ?case
    by (cases s)
       (auto simp: lits_def matchHere_One_Cons matchHere_One_Nil dest: canonicalize_lowerChar
             split: if_splits)
qed

lemma exec_lits_sound:
  "exec (lits t @ r) s = Some g \<Longrightarrow> ci_substring t s"
  by (induction s) (auto simp: exec.simps dest: matchHere_lits_sound split: option.splits)

text \<open>
  A match takes at least as many double quotes from the text as the pattern has literal ones,
  so a text with fewer of them holds no match.
\<close>

lemma matchHere_quotes:
  \<open>matchHere p s = Some g \<Longrightarrow>
   length (filter (\<lambda>n. n = One (Lit (CHR ''"''))) p) \<le> length (filter (\<lambda>c. c = CHR ''"'') s)\<close>
proof (induction p arbitrary: s g)
  case Nil
  then show ?case by simp
next
  case (Cons n p)
  note IH = Cons.IH
  show ?case
  proof (cases n)
    case (One c)
    with Cons.prems obtain x xs where s: "s = x # xs" and a: "accepts c x"
      and m: "matchHere p xs = Some g"
      by (cases s) (auto simp: matchHere_One_Cons matchHere_One_Nil split: if_splits)
    from a have \<open>c = Lit (CHR ''"'') \<Longrightarrow> x = CHR ''"''\<close>
      by (simp add: accepts_quote del: accepts.simps(1))
    with IH [OF m] One s show ?thesis by auto
  next
    case (Star c)
    have \<open>matchHere (Star c # p) s = Some g \<Longrightarrow>
          length (filter (\<lambda>n. n = One (Lit (CHR ''"''))) p) \<le> length (filter (\<lambda>c. c = CHR ''"'') s)\<close>
    proof (induction s)
      case Nil
      then show ?case using IH [of "[]" g] by (simp add: matchHere_Star_Nil)
    next
      case (Cons x xs)
      from Cons.prems consider "matchHere (Star c # p) xs = Some g" | "matchHere p (x # xs) = Some g"
        by (auto simp: matchHere_Star_Cons split: if_splits option.splits)
      then show ?case
      proof cases
        case 1
        from Cons.IH [OF 1] show ?thesis by auto
      next
        case 2
        from IH [OF 2] show ?thesis .
      qed
    qed
    with Cons.prems Star show ?thesis by simp
  next
    case (Opt c)
    from Cons.prems Opt consider "matchHere p s = Some g"
      | x xs where "s = x # xs" "matchHere p xs = Some g"
      by (cases s) (auto simp: matchHere_Opt_Cons matchHere_Opt_Nil split: if_splits option.splits)
    then show ?thesis
    proof cases
      case 1
      from IH [OF 1] Opt show ?thesis by simp
    next
      case 2
      from IH [OF 2(2)] 2(1) Opt show ?thesis by auto
    qed
  next
    case (LazyGroup c)
    have \<open>matchHere (LazyGroup c # p) s = Some g \<Longrightarrow>
          length (filter (\<lambda>n. n = One (Lit (CHR ''"''))) p) \<le> length (filter (\<lambda>c. c = CHR ''"'') s)\<close>
      for g
    proof (induction s arbitrary: g)
      case Nil
      then obtain g' where "matchHere p [] = Some g'"
        by (auto simp: matchHere_LazyGroup_Nil split: option.splits)
      from IH [OF this] show ?case .
    next
      case (Cons x xs)
      from Cons.prems consider g' where "matchHere p (x # xs) = Some g'"
        | g' where "matchHere (LazyGroup c # p) xs = Some g'"
        by (auto simp: matchHere_LazyGroup_Cons split: if_splits option.splits)
      then show ?case
      proof cases
        case 1
        from IH [OF 1] show ?thesis .
      next
        case 2
        from Cons.IH [OF 2] show ?thesis by auto
      qed
    qed
    with Cons.prems LazyGroup show ?thesis by simp
  qed
qed

lemma exec_quotes:
  \<open>length (filter (\<lambda>c. c = CHR ''"'') s) < length (filter (\<lambda>n. n = One (Lit (CHR ''"''))) p) \<Longrightarrow>
   exec p s = None\<close>
proof (induction s)
  case Nil
  then show ?case using matchHere_quotes [of p "[]"] by (cases "matchHere p []") (auto simp: exec.simps)
next
  case (Cons x s)
  then show ?case
    using matchHere_quotes [of p "x # s"]
    by (cases "matchHere p (x # s)") (auto simp: exec.simps split: if_splits)
qed

text \<open>The text \<^verbatim>\<open>null\<close>, which is searched when no head was found, matches none of the field patterns.\<close>

lemma exec_null:
  "exec NODES_REG_EXPS_url ''null'' = None"
  "exec NODES_REG_EXPS_siteName ''null'' = None"
  "exec NODES_REG_EXPS_title ''null'' = None"
  "exec NODES_REG_EXPS_description ''null'' = None"
  "exec NODES_REG_EXPS_description2 ''null'' = None"
  "exec NODES_REG_EXPS_keywords ''null'' = None"
  "exec NODES_REG_EXPS_author ''null'' = None"
  by (simp_all add: regexp_eval)

lemma no_head_absent:
  "getNodeValue (Some (replace_NEWLINE_REGEXP '' '' h)) NODES_REG_EXPS_head = None \<Longrightarrow>
   getMetadata (JSString h) = allAbsent"
  by (simp add: getMetadata_def getNodeValue_def toString_def js_or_def js_not_def allAbsent_def exec_null)

section \<open>Facts about the line breaks\<close>

lemma replace_no_newline:
  "\<forall>c\<in>set s. c \<noteq> LF \<and> c \<noteq> CR \<Longrightarrow> replace_NEWLINE_REGEXP rep s = s"
  by (induction rep s rule: replace_NEWLINE_REGEXP.induct) auto

lemma replace_result:
  "c \<in> set (replace_NEWLINE_REGEXP '' '' s) \<Longrightarrow> c \<noteq> LF \<and> c \<noteq> CR"
  by (induction "'' ''" s rule: replace_NEWLINE_REGEXP.induct)
     (auto simp: LF_def CR_def split: if_splits)

lemma replace_idem:
  "replace_NEWLINE_REGEXP '' '' (replace_NEWLINE_REGEXP '' '' s) = replace_NEWLINE_REGEXP '' '' s"
  by (rule replace_no_newline) (auto dest: replace_result)

lemma replace_empty: "replace_NEWLINE_REGEXP '' '' s = [] \<longleftrightarrow> s = []"
  by (induction "'' ''" s rule: replace_NEWLINE_REGEXP.induct) auto

lemma replace_append:
  "a = [] \<or> last a \<noteq> CR \<or> b = [] \<or> hd b \<noteq> LF \<Longrightarrow>
   replace_NEWLINE_REGEXP rep (a @ b) = replace_NEWLINE_REGEXP rep a @ replace_NEWLINE_REGEXP rep b"
proof (induction rep a rule: replace_NEWLINE_REGEXP.induct)
  case (1 rep)
  show ?case by simp
next
  case (2 rep x)
  then show ?case by (cases b) (auto simp: LF_def CR_def)
next
  case (3 rep x y s)
  then show ?case by (cases "s = []") (auto simp: LF_def CR_def)
qed

lemma getMetadata_flat:
  "getMetadata (JSString h) = getMetadata (JSString (replace_NEWLINE_REGEXP '' '' h))"
  by (simp add: getMetadata_def js_not_def replace_idem replace_empty)

lemma replace_separator:
  assumes "sep = [CR, LF] \<or> sep = [CR] \<or> sep = [LF]"
    and "sep = [LF] \<longrightarrow> a = [] \<or> last a \<noteq> CR"
    and "sep = [CR] \<longrightarrow> b = [] \<or> hd b \<noteq> LF"
  shows "replace_NEWLINE_REGEXP '' '' (a @ sep @ b) =
         replace_NEWLINE_REGEXP '' '' a @ '' '' @ replace_NEWLINE_REGEXP '' '' b"
proof -
  have 1: "replace_NEWLINE_REGEXP '' '' (a @ sep @ b) =
           replace_NEWLINE_REGEXP '' '' a @ replace_NEWLINE_REGEXP '' '' (sep @ b)"
    using assms by (intro replace_append) (auto simp: LF_def CR_def)
  have 2: "replace_NEWLINE_REGEXP '' '' (sep @ b) = '' '' @ replace_NEWLINE_REGEXP '' '' b"
    using assms by (cases b) (auto simp: LF_def CR_def)
  show ?thesis by (simp only: 1 2)
qed

lemma ci_prefix_flat:
  "\<forall>a\<in>set t. a \<noteq> SP \<Longrightarrow> ci_prefix t (replace_NEWLINE_REGEXP [SP] s) \<Longrightarrow> ci_prefix t s"
proof (induction "[SP]" s arbitrary: t rule: replace_NEWLINE_REGEXP.induct)
  case 1
  then show ?case by simp
next
  case (2 x)
  then show ?case by (cases t) (auto simp: lowerChar_SP split: if_splits)
next
  case (3 x y s)
  then show ?case by (cases t) (auto simp: lowerChar_SP split: if_splits)
qed

lemma ci_substring_flat:
  "\<forall>a\<in>set t. a \<noteq> SP \<Longrightarrow> ci_substring t (replace_NEWLINE_REGEXP [SP] s) \<Longrightarrow> ci_substring t s"
proof (induction "[SP]" s rule: replace_NEWLINE_REGEXP.induct)
  case 1
  then show ?case by simp
next
  case (2 x)
  then show ?case by (cases t) (auto simp: lowerChar_SP split: if_splits)
next
  case (3 x y s)
  then show ?case
    using ci_prefix_flat [of t "x # y # s"]
    by (cases t) (auto simp: lowerChar_SP split: if_splits)
qed

section \<open>A head that holds one description element\<close>

lemma description_of_head:
  assumes head: \<open>getNodeValue (Some (replace_NEWLINE_REGEXP '' '' h)) NODES_REG_EXPS_head
      = Some (''<meta name="description" content="'' @ X @ ''">'')\<close>
    and X: \<open>\<forall>c\<in>set X. c \<noteq> CHR ''"'' \<and> c \<noteq> LF \<and> c \<noteq> CR\<close>
  shows "description (getMetadata (JSString h)) = Some X"
proof -
  have q: \<open>filter (\<lambda>c. c = CHR ''"'') X = []\<close>
    using X by (induction X) auto
  have tail: \<open>exec NODES_REG_EXPS_description (X @ ''">'') = None\<close>
    by (rule exec_quotes) (simp add: q NODES_REG_EXPS_description_def metaRegExp_def lits_def)
  have og: \<open>exec NODES_REG_EXPS_description (''<meta name="description" content="'' @ X @ ''">'') = None\<close>
    using tail by (simp add: regexp_eval)
  have skip_quote: \<open>matchHere (LazyGroup AnyChar # One (Lit (CHR ''"'')) # r) (X @ s) =
      map_option ((@) X) (matchHere (LazyGroup AnyChar # One (Lit (CHR ''"'')) # r) s)\<close> for r s
    using X by (intro lazy_skip) (simp add: accepts_quote del: accepts.simps(1))
  have d2: \<open>exec NODES_REG_EXPS_description2 (''<meta name="description" content="'' @ X @ ''">'') = Some X\<close>
    by (simp add: regexp_eval skip_quote)
  have "h \<noteq> []"
    using head by (auto simp: getNodeValue_def toString_def regexp_eval)
  then show ?thesis
    using head og d2
    by (simp add: getMetadata_def getNodeValue_def toString_def js_not_def js_or_def)
qed

section \<open>Facts about tokens and substrings\<close>

lemma foldl_push:
  "foldl (\<lambda>words currentWord. words @ f currentWord) acc ws = acc @ concat (map f ws)"
  by (induction ws arbitrary: acc) simp_all

lemma getQueryArray_concat:
  "getQueryArray query =
     filter (\<lambda>t. 1 < length t) (concat (map handleSpecialChars (splitAt (\<lambda>c. c = SP) query)))"
  by (simp add: getQueryArray_def foldl_push)

lemma splitAt_not_Nil [simp]: "splitAt P s \<noteq> []"
  by (induction s) (auto split: list.splits)

lemma concat_splitAt: "concat (splitAt P s) = filter (\<lambda>c. \<not> P c) s"
  by (induction s) (auto split: list.splits)

lemma length_splitAt: "length (splitAt P s) = Suc (length (filter P s))"
  by (induction s) (auto split: list.splits)

lemma splitAt_pieces: "w \<in> set (splitAt P s) \<Longrightarrow> set w \<subseteq> {c \<in> set s. \<not> P c}"
proof (induction s arbitrary: w)
  case Nil
  then show ?case by simp
next
  case (Cons x s)
  show ?case
  proof (cases "splitAt P s")
    case Nil
    then show ?thesis by simp
  next
    case (Cons v vs)
    then have "set v \<subseteq> {c \<in> set s. \<not> P c}" and "\<forall>u\<in>set vs. set u \<subseteq> {c \<in> set s. \<not> P c}"
      using Cons.IH by auto
    with Cons Cons.prems show ?thesis by (auto split: if_splits)
  qed
qed

lemma handleSpecialChars_chars:
  "t \<in> set (handleSpecialChars w) \<Longrightarrow> set t \<subseteq> set w"
  using splitAt_pieces [of t SPECIAL_CHARS_REGEXP w]
  by (auto simp: handleSpecialChars_def Let_def split: if_splits)

lemma token_properties:
  assumes "t \<in> set (getQueryArray query)"
  shows "1 < length t \<and> SP \<notin> set t"
proof -
  from assms obtain w where w: "w \<in> set (splitAt (\<lambda>c. c = SP) query)" and t: "t \<in> set (handleSpecialChars w)"
    and l: "1 < length t"
    by (auto simp: getQueryArray_concat)
  have "SP \<notin> set w" using splitAt_pieces [OF w] by auto
  with handleSpecialChars_chars [OF t] l show ?thesis by auto
qed

lemma joinStrings_Cons: "joinStrings sep ((x # w) # ws) = x # joinStrings sep (w # ws)"
  by (cases ws) simp_all

lemma joinStrings_splitAt: "joinStrings [sep] (splitAt (\<lambda>c. c = sep) s) = s"
proof (induction s)
  case Nil
  show ?case by simp
next
  case (Cons x s)
  then show ?case
    by (cases "splitAt (\<lambda>c. c = sep) s") (simp_all add: joinStrings_Cons)
qed

lemma startsWith_iff: "startsWith s t \<longleftrightarrow> (\<exists>post. s = t @ post)"
  by (induction s t rule: startsWith.induct) auto

lemma includesStr_iff: "includesStr s t \<longleftrightarrow> (\<exists>pre post. s = pre @ t @ post)"
proof (induction s)
  case Nil
  show ?case by (cases t) auto
next
  case (Cons x s)
  show ?case
  proof
    assume "includesStr (x # s) t"
    then consider "startsWith (x # s) t" | "includesStr s t" by auto
    then show "\<exists>pre post. x # s = pre @ t @ post"
    proof cases
      case 1
      then obtain post where "x # s = t @ post" by (auto simp: startsWith_iff)
      then have "x # s = [] @ t @ post" by simp
      then show ?thesis by blast
    next
      case 2
      then obtain pre post where "s = pre @ t @ post" using Cons.IH by auto
      then have "x # s = (x # pre) @ t @ post" by simp
      then show ?thesis by blast
    qed
  next
    assume "\<exists>pre post. x # s = pre @ t @ post"
    then obtain pre post where e: "x # s = pre @ t @ post" by auto
    show "includesStr (x # s) t"
    proof (cases pre)
      case Nil
      with e have "startsWith (x # s) t" by (simp add: startsWith_iff)
      then show ?thesis by simp
    next
      case (Cons y pre')
      with e have "s = pre' @ t @ post" by simp
      then show ?thesis using Cons.IH by auto
    qed
  qed
qed

lemma includesStr_append: "includesStr s t \<Longrightarrow> includesStr (a @ s @ b) t"
proof -
  assume "includesStr s t"
  then obtain pre post where "s = pre @ t @ post" by (auto simp: includesStr_iff)
  then have "a @ s @ b = (a @ pre) @ t @ (post @ b)" by simp
  then show ?thesis unfolding includesStr_iff by blast
qed

lemma ci_prefix_startsWith: "ci_prefix t u \<longleftrightarrow> startsWith (map lowerChar u) (map lowerChar t)"
  by (induction t u rule: ci_prefix.induct) auto

lemma ci_substring_includesStr:
  "ci_substring t u \<longleftrightarrow> includesStr (map lowerChar u) (map lowerChar t)"
  by (induction u) (auto simp: ci_prefix_startsWith)

lemma ci_substring_iff:
  "ci_substring t u \<longleftrightarrow>
     (\<exists>pre mid post. u = pre @ mid @ post \<and> map lowerChar mid = map lowerChar t)"
proof
  assume "ci_substring t u"
  then obtain a b where "map lowerChar u = a @ map lowerChar t @ b"
    by (auto simp: ci_substring_includesStr includesStr_iff)
  then have "\<exists>us vs. u = us @ vs \<and> a = map lowerChar us \<and> map lowerChar t @ b = map lowerChar vs"
    by (simp only: map_eq_append_conv)
  then obtain pre r where u: "u = pre @ r" and r: "map lowerChar t @ b = map lowerChar r"
    by blast
  from r have "\<exists>us vs. r = us @ vs \<and> map lowerChar t = map lowerChar us \<and> b = map lowerChar vs"
    by (simp only: append_eq_map_conv)
  then obtain mid post where "r = mid @ post" and "map lowerChar mid = map lowerChar t"
    by metis
  with u show "\<exists>pre mid post. u = pre @ mid @ post \<and> map lowerChar mid = map lowerChar t"
    by blast
next
  assume "\<exists>pre mid post. u = pre @ mid @ post \<and> map lowerChar mid = map lowerChar t"
  then obtain pre mid post where "u = pre @ mid @ post" and "map lowerChar mid = map lowerChar t"
    by blast
  then have "map lowerChar u = map lowerChar pre @ map lowerChar t @ map lowerChar post"
    by simp
  then show "ci_substring t u"
    unfolding ci_substring_includesStr includesStr_iff by blast
qed

lemma map_lowerChar_joinStrings:
  "map lowerChar (joinStrings '' '' xs) = joinStrings '' '' (map (map lowerChar) xs)"
  using lowerChar_SP_eq by (induction "'' ''" xs rule: joinStrings.induct) (simp_all add: SP_def)

lemma spec_combinedText_eq: "spec_combinedText m = formatMetadataValues m"
proof -
  have "map lowerChar (filter (\<lambda>c. \<not> SPECIAL_CHARS_REGEXP c) s) =
        filter (\<lambda>c. \<not> SPECIAL_CHARS_REGEXP c) (map lowerChar s)" for s
    by (induction s) (simp_all add: lowerChar_special)
  then show ?thesis
    by (simp add: spec_combinedText_def formatMetadataValues_def join_def toLowerCase_def
        map_lowerChar_joinStrings comp_def)
qed

lemma formatMetadataValues_lower:
  "map lowerChar (formatMetadataValues m) = formatMetadataValues m"
  by (simp add: formatMetadataValues_def toLowerCase_def lowerChar_idem)

lemma doesMetadataMatch_spec:
  "doesMetadataMatch m query = list_ex (\<lambda>t. ci_substring t (spec_combinedText m)) query"
  by (simp add: doesMetadataMatch_def spec_combinedText_eq ci_substring_includesStr
      formatMetadataValues_lower toLowerCase_def)

lemma getQueryArray_light_year:
  "getQueryArray ''light-year'' = [''light'', ''year'', ''lightyear'', ''light-year'']"
  by (simp add: getQueryArray_def handleSpecialChars_def SPECIAL_CHARS_REGEXP_def SP_def)

lemma includesStr_joinStrings:
  "x \<in> set xs \<Longrightarrow> includesStr x t \<Longrightarrow> includesStr (joinStrings sep xs) t"
proof (induction sep xs rule: joinStrings.induct)
  case (1 sep)
  then show ?case by simp
next
  case (2 sep y)
  then show ?case by simp
next
  case (3 sep y z r)
  show ?case
  proof (cases "x = y")
    case True
    then have "includesStr ([] @ y @ (sep @ joinStrings sep (z # r))) t"
      using "3.prems" by (intro includesStr_append) simp
    then show ?thesis by simp
  next
    case False
    then have "includesStr (joinStrings sep (z # r)) t"
      using 3 by simp
    then have "includesStr ((y @ sep) @ joinStrings sep (z # r) @ []) t"
      by (rule includesStr_append)
    then show ?thesis by simp
  qed
qed

lemma field_in_values:
  assumes "url m = Some x \<or> siteName m = Some x \<or> title m = Some x \<or> description m = Some x \<or>
           author m = Some x \<or> (\<exists>ks. keywords m = Some ks \<and> x \<in> set ks)"
    and "includesStr x t"
  shows "includesStr (join '' '' (Object_values m)) t"
proof -
  have "\<exists>v\<in>set (Object_values m). includesStr (elementText v) t"
    using assms by (auto simp: Object_values_def intro: includesStr_joinStrings)
  then obtain v where "elementText v \<in> set (map elementText (Object_values m))"
    and "includesStr (elementText v) t"
    by auto
  then show ?thesis
    unfolding join_def by (rule includesStr_joinStrings)
qed

lemma lightyear_match:
  assumes "includesStr (join '' '' (Object_values m)) ''lightyear''"
  shows "doesMetadataMatch m (getQueryArray ''light-year'')"
proof -
  let ?f = "\<lambda>s. toLowerCase (filter (\<lambda>c. \<not> SPECIAL_CHARS_REGEXP c) s)"
  have f: "?f (a @ b) = ?f a @ ?f b" for a b by (simp add: toLowerCase_def)
  have l: "?f ''lightyear'' = ''lightyear''"
    by (simp add: toLowerCase_def SPECIAL_CHARS_REGEXP_def lowerChar_Char)
  from assms obtain pre post where "join '' '' (Object_values m) = pre @ ''lightyear'' @ post"
    by (auto simp: includesStr_iff)
  then have "formatMetadataValues m = ?f pre @ ''lightyear'' @ ?f post"
    by (simp only: formatMetadataValues_def f l)
  then have "includesStr (formatMetadataValues m) ''lightyear''"
    unfolding includesStr_iff by blast
  then show ?thesis
    by (simp add: doesMetadataMatch_def getQueryArray_light_year toLowerCase_def lowerChar_Char)
qed

lemma formatMetadataValues_allAbsent: "formatMetadataValues allAbsent = ''     ''"
  by (simp add: filter_eval)

lemma allAbsent_no_match: "\<not> doesMetadataMatch allAbsent (getQueryArray q)"
proof
  assume "doesMetadataMatch allAbsent (getQueryArray q)"
  then obtain t where t: "t \<in> set (getQueryArray q)"
    and i: "includesStr ''     '' (toLowerCase t)"
    by (auto simp: doesMetadataMatch_def formatMetadataValues_allAbsent list_ex_iff)
  from token_properties [OF t] obtain c where c: "c \<in> set t" "c \<noteq> SP"
    by (cases t) auto
  from i obtain pre post where "''     '' = pre @ toLowerCase t @ post"
    by (auto simp: includesStr_iff)
  then have "set (toLowerCase t) \<subseteq> set ''     ''"
    by (metis Un_upper1 Un_upper2 set_append subset_trans)
  then have "lowerChar c = SP" using c(1) by (auto simp: toLowerCase_def SP_def)
  with c(2) show False by (simp add: lowerChar_SP)
qed

section \<open>The extracted record\<close>

text \<open>
  C1. The documentation of \<^verbatim>\<open>getMetadata\<close> promises \<^verbatim>\<open>null\<close> for a tag that is missing or
  whose value is empty. The function does not keep that promise: a tag with empty content
  gives the empty string, and a keywords tag none of whose tokens survives gives the empty
  array (the array is truthy, so \<^verbatim>\<open>|| null\<close> does not replace it). The document below has
  the six tags, each with nothing to extract.
\<close>

theorem empty_values_not_absent:
  \<open>getMetadata (JSString ''<head><meta property="og:url" content=""><meta property="og:site_name" content=""><title></title><meta name="description" content=""><meta name="keywords" content=","><meta name="author" content=""></head>'')
   = \<lparr>url = Some [], siteName = Some [], title = Some [], description = Some [],
      keywords = Some [], author = Some []\<rparr>\<close>
  by (simp add: getMetadata_eval)

text \<open>
  C4. For an argument that is missing (\<^verbatim>\<open>undefined\<close> or \<^verbatim>\<open>null\<close>), the empty string, or not a
  string at all, \<^verbatim>\<open>getMetadata\<close> returns the record whose six fields are absent. The function
  is total: it returns a record for every argument and has no failing branch.
\<close>

theorem getMetadata_invalid_input:
  "html = JSUndefined \<or> html = JSNull \<or> html = JSString [] \<or> typeof html \<noteq> ''string''
   \<Longrightarrow> getMetadata html = allAbsent"
  by (cases html) (auto simp: getMetadata_def js_not_def)

theorem getMetadata_invalid_input_witness:
  "getMetadata JSUndefined = allAbsent \<and> getMetadata JSNull = allAbsent \<and>
   getMetadata (JSString []) = allAbsent \<and> getMetadata (JSNumber 42) = allAbsent \<and>
   getMetadata JSNaN = allAbsent \<and> getMetadata (JSBoolean True) = allAbsent \<and>
   getMetadata (JSArray []) = allAbsent \<and> getMetadata JSObject = allAbsent"
  using getMetadata_invalid_input [of JSUndefined] getMetadata_invalid_input [of JSNull]
    getMetadata_invalid_input [of "JSString []"] getMetadata_invalid_input [of "JSNumber 42"]
    getMetadata_invalid_input [of JSNaN] getMetadata_invalid_input [of "JSBoolean True"]
    getMetadata_invalid_input [of "JSArray []"] getMetadata_invalid_input [of JSObject]
  by simp

text \<open>
  C6 (amended). The description is the capture of the \<^verbatim>\<open>og:description\<close> pattern in the head
  when that is a non-empty text; when the pattern is absent or captures the empty text, it is
  the result of the pattern \<^verbatim>\<open><meta name="description" content="...">\<close>. In particular, when
  the head that was found holds just \<^verbatim>\<open><meta name="description" content="X">\<close>, for a text X
  without double quote and line break, the description is X.
\<close>

theorem description_fallback:
  \<open>(h \<noteq> [] \<longrightarrow>
      description (getMetadata (JSString h)) =
        (let head = getNodeValue (Some (replace_NEWLINE_REGEXP '' '' h)) NODES_REG_EXPS_head;
             og = getNodeValue head NODES_REG_EXPS_description
         in if og = None \<or> og = Some [] then getNodeValue head NODES_REG_EXPS_description2 else og)) \<and>
   (getNodeValue (Some (replace_NEWLINE_REGEXP '' '' h)) NODES_REG_EXPS_head
      = Some (''<meta name="description" content="'' @ X @ ''">'') \<and>
    (\<forall>c\<in>set X. c \<noteq> CHR ''"'' \<and> c \<noteq> LF \<and> c \<noteq> CR) \<longrightarrow>
      description (getMetadata (JSString h)) = Some X)\<close>
proof -
  have \<open>description (getMetadata (JSString h)) =
        (let head = getNodeValue (Some (replace_NEWLINE_REGEXP '' '' h)) NODES_REG_EXPS_head;
             og = getNodeValue head NODES_REG_EXPS_description
         in if og = None \<or> og = Some [] then getNodeValue head NODES_REG_EXPS_description2 else og)\<close>
    if "h \<noteq> []"
    using that by (auto simp: getMetadata_def js_not_def js_or_def Let_def split: option.splits)
  then show ?thesis using description_of_head [of h X] by blast
qed

theorem description_fallback_witness:
  \<open>description (getMetadata (JSString ''<head><meta property="og:description" content="OG"><meta name="description" content="plain"></head>''))
     = Some ''OG'' \<and>
   description (getMetadata (JSString ''<head><meta property="og:description" content=""><meta name="description" content="plain"></head>''))
     = Some ''plain'' \<and>
   description (getMetadata (JSString ''<head><title>t</title></head>'')) = None \<and>
   description (getMetadata (JSString ''<html><head><meta name="description" content="A page <b>about</b> cats"></head><body>text</body></html>''))
     = Some ''A page <b>about</b> cats''\<close>
proof -
  have a: \<open>description (getMetadata (JSString ''<head><meta property="og:description" content="OG"><meta name="description" content="plain"></head>''))
     = Some ''OG''\<close>
    using description_fallback [of \<open>''<head><meta property="og:description" content="OG"><meta name="description" content="plain"></head>''\<close>]
    by (simp add: getNodeValue_def toString_def regexp_eval)
  have b: \<open>description (getMetadata (JSString ''<head><meta property="og:description" content=""><meta name="description" content="plain"></head>''))
     = Some ''plain''\<close>
    using description_fallback [of \<open>''<head><meta property="og:description" content=""><meta name="description" content="plain"></head>''\<close>]
    by (simp add: getNodeValue_def toString_def regexp_eval)
  have c: \<open>description (getMetadata (JSString ''<head><title>t</title></head>'')) = None\<close>
    using description_fallback [of \<open>''<head><title>t</title></head>''\<close>]
    by (simp add: getNodeValue_def toString_def regexp_eval)
  have h: \<open>getNodeValue (Some (replace_NEWLINE_REGEXP '' '' ''<html><head><meta name="description" content="A page <b>about</b> cats"></head><body>text</body></html>''))
      NODES_REG_EXPS_head = Some (''<meta name="description" content="'' @ ''A page <b>about</b> cats'' @ ''">'')\<close>
    by (simp add: getNodeValue_def toString_def regexp_eval)
  have x: \<open>\<forall>c\<in>set ''A page <b>about</b> cats''. c \<noteq> CHR ''"'' \<and> c \<noteq> LF \<and> c \<noteq> CR\<close>
    by (simp add: LF_def CR_def)
  have d: \<open>description (getMetadata (JSString ''<html><head><meta name="description" content="A page <b>about</b> cats"></head><body>text</body></html>''))
     = Some ''A page <b>about</b> cats''\<close>
    using description_fallback
      [of \<open>''<html><head><meta name="description" content="A page <b>about</b> cats"></head><body>text</body></html>''\<close>
          \<open>''A page <b>about</b> cats''\<close>] h x
    by blast
  show ?thesis using a b c d by blast
qed

text \<open>
  The fallback is not tied to the absence of the first pattern: in the document below the
  \<^verbatim>\<open>og:description\<close> pattern is present in the head, with empty content, and the description
  is taken from the second pattern all the same.
\<close>

theorem description_fallback_counterexample:
  \<open>getNodeValue (Some ''<head><meta property="og:description" content=""><meta name="description" content="X"></head>'') NODES_REG_EXPS_head
     = Some ''<meta property="og:description" content=""><meta name="description" content="X">'' \<and>
   getNodeValue (Some ''<meta property="og:description" content=""><meta name="description" content="X">'') NODES_REG_EXPS_description
     = Some [] \<and>
   description (getMetadata (JSString ''<head><meta property="og:description" content=""><meta name="description" content="X"></head>''))
     = Some ''X''\<close>
  by (simp add: getMetadata_eval)

text \<open>
  C7. When the search for the head pattern in the text of a document (a non-empty string, line
  breaks collapsed) finds nothing, every one of the six fields is absent: the field patterns
  are searched in what the head pattern captured, and without a capture there is nothing
  they match.
\<close>

theorem no_head_all_absent:
  "getNodeValue (Some (replace_NEWLINE_REGEXP '' '' h)) NODES_REG_EXPS_head = None \<Longrightarrow>
   getMetadata (JSString h) = allAbsent"
  by (rule no_head_absent)

theorem no_head_all_absent_witness:
  \<open>getNodeValue (Some (replace_NEWLINE_REGEXP '' '' ''<title>T</title><meta name="author" content="A">''))
     NODES_REG_EXPS_head = None \<and>
   getMetadata (JSString ''<title>T</title><meta name="author" content="A">'') = allAbsent\<close>
proof -
  have h: \<open>getNodeValue (Some (replace_NEWLINE_REGEXP '' '' ''<title>T</title><meta name="author" content="A">''))
     NODES_REG_EXPS_head = None\<close>
    by (simp add: getNodeValue_def toString_def regexp_eval)
  show ?thesis by (rule conjI [OF h no_head_all_absent [OF h]])
qed

text \<open>
  C8. \<^verbatim>\<open>getMetadata\<close> searches the text of the document with every line break collapsed: the
  result for a document is the result for its collapsed text, which has no carriage return
  and no line feed left; and a line break \<^verbatim>\<open>\r\n\<close>, \<^verbatim>\<open>\r\<close> or \<^verbatim>\<open>\n\<close> between two parts of a
  document (a whole one: a \<^verbatim>\<open>\n\<close> not behind a \<^verbatim>\<open>\r\<close>, a \<^verbatim>\<open>\r\<close> not before a \<^verbatim>\<open>\n\<close>) is
  collapsed to one space, so that the document is extracted as the one with a single space
  in place of the line break is.
\<close>

theorem newline_normalization:
  "getMetadata (JSString h) = getMetadata (JSString (replace_NEWLINE_REGEXP '' '' h)) \<and>
   CR \<notin> set (replace_NEWLINE_REGEXP '' '' h) \<and> LF \<notin> set (replace_NEWLINE_REGEXP '' '' h) \<and>
   ((sep = [CR, LF] \<or> sep = [CR] \<or> sep = [LF]) \<and>
    (sep = [LF] \<longrightarrow> a = [] \<or> last a \<noteq> CR) \<and> (sep = [CR] \<longrightarrow> b = [] \<or> hd b \<noteq> LF) \<longrightarrow>
      replace_NEWLINE_REGEXP '' '' (a @ sep @ b) =
        replace_NEWLINE_REGEXP '' '' a @ '' '' @ replace_NEWLINE_REGEXP '' '' b \<and>
      getMetadata (JSString (a @ sep @ b)) = getMetadata (JSString (a @ '' '' @ b)))"
proof -
  have r: "CR \<notin> set (replace_NEWLINE_REGEXP '' '' h) \<and> LF \<notin> set (replace_NEWLINE_REGEXP '' '' h)"
    using replace_result [of CR h] replace_result [of LF h] by blast
  have s: "replace_NEWLINE_REGEXP '' '' (a @ '' '' @ b) =
           replace_NEWLINE_REGEXP '' '' a @ '' '' @ replace_NEWLINE_REGEXP '' '' b"
  proof -
    have "replace_NEWLINE_REGEXP '' '' (a @ '' '' @ b) =
          replace_NEWLINE_REGEXP '' '' a @ replace_NEWLINE_REGEXP '' '' ('' '' @ b)"
      by (intro replace_append) (auto simp: LF_def CR_def)
    moreover have "replace_NEWLINE_REGEXP '' '' ('' '' @ b) = '' '' @ replace_NEWLINE_REGEXP '' '' b"
      by (cases b) (auto simp: LF_def CR_def)
    ultimately show ?thesis by simp
  qed
  have m: "replace_NEWLINE_REGEXP '' '' x = replace_NEWLINE_REGEXP '' '' y \<Longrightarrow>
           getMetadata (JSString x) = getMetadata (JSString y)" for x y
    using getMetadata_flat [of x] getMetadata_flat [of y] by simp
  show ?thesis
    using r getMetadata_flat [of h] replace_separator [of sep a b] s m [of "a @ sep @ b" "a @ '' '' @ b"]
    by auto
qed

theorem newline_normalization_witness:
  "getMetadata (JSString (''<head><title>Hello'' @ [LF] @ ''World</title></head>'')) =
     allAbsent\<lparr>title := Some ''Hello World''\<rparr> \<and>
   getMetadata (JSString (''<head><title>Hello'' @ [CR, LF] @ ''World</title></head>'')) =
     allAbsent\<lparr>title := Some ''Hello World''\<rparr> \<and>
   getMetadata (JSString (''<head><title>Hello'' @ [CR] @ ''World</title></head>'')) =
     allAbsent\<lparr>title := Some ''Hello World''\<rparr> \<and>
   replace_NEWLINE_REGEXP '' '' (''a'' @ [CR, LF] @ ''b'') = ''a b''"
proof -
  have e: "getMetadata (JSString (''<head><title>Hello'' @ '' '' @ ''World</title></head>'')) =
     allAbsent\<lparr>title := Some ''Hello World''\<rparr>"
    by (simp add: getMetadata_eval)
  have n: "CR \<noteq> LF" "last ''<head><title>Hello'' \<noteq> CR" "hd ''World</title></head>'' \<noteq> LF"
    "hd ''b'' \<noteq> LF"
    by (simp_all add: CR_def LF_def)
  have r: "replace_NEWLINE_REGEXP '' '' ''a'' = ''a''" "replace_NEWLINE_REGEXP '' '' ''b'' = ''b''"
    by (simp_all add: CR_def LF_def)
  have 1: "getMetadata (JSString (''<head><title>Hello'' @ [LF] @ ''World</title></head>'')) =
      getMetadata (JSString (''<head><title>Hello'' @ '' '' @ ''World</title></head>''))"
    using newline_normalization [of "[]" "[LF]" "''<head><title>Hello''" "''World</title></head>''"] n
    by blast
  have 2: "getMetadata (JSString (''<head><title>Hello'' @ [CR, LF] @ ''World</title></head>'')) =
      getMetadata (JSString (''<head><title>Hello'' @ '' '' @ ''World</title></head>''))"
    using newline_normalization [of "[]" "[CR, LF]" "''<head><title>Hello''" "''World</title></head>''"] n
    by blast
  have 3: "getMetadata (JSString (''<head><title>Hello'' @ [CR] @ ''World</title></head>'')) =
      getMetadata (JSString (''<head><title>Hello'' @ '' '' @ ''World</title></head>''))"
    using newline_normalization [of "[]" "[CR]" "''<head><title>Hello''" "''World</title></head>''"] n
    by blast
  have 4: "replace_NEWLINE_REGEXP '' '' (''a'' @ [CR, LF] @ ''b'') =
      replace_NEWLINE_REGEXP '' '' ''a'' @ '' '' @ replace_NEWLINE_REGEXP '' '' ''b''"
    using newline_normalization [of "[]" "[CR, LF]" "''a''" "''b''"] n by blast
  show ?thesis
    unfolding 1 2 3 4 e r by simp
qed

text \<open>
  C10 (amended). The head is recognized only by the literal opening tag \<^verbatim>\<open><head>\<close>, in any
  letter case: for every document in which that text occurs nowhere, as in one whose only
  opening tag of a head carries attributes, all six fields are absent.
\<close>

theorem head_needs_literal_tag:
  "\<not> ci_substring ''<head>'' html \<Longrightarrow> getMetadata (JSString html) = allAbsent"
proof -
  assume a: "\<not> ci_substring ''<head>'' html"
  have "\<not> ci_substring ''<head>'' (replace_NEWLINE_REGEXP [SP] html)"
    using a ci_substring_flat [of "''<head>''" html] by (auto simp: SP_def)
  then have "exec NODES_REG_EXPS_head (replace_NEWLINE_REGEXP [SP] html) = None"
    using exec_lits_sound [of "''<head>''" _ "replace_NEWLINE_REGEXP [SP] html"]
    by (cases "exec NODES_REG_EXPS_head (replace_NEWLINE_REGEXP [SP] html)")
       (auto simp: NODES_REG_EXPS_head_def)
  then show ?thesis
    using no_head_absent [of html] by (simp add: getNodeValue_def toString_def SP_def)
qed

theorem head_needs_literal_tag_witness:
  \<open>\<not> ci_substring ''<head>'' ''<html><head lang="en"><title>T</title></head></html>'' \<and>
   getMetadata (JSString ''<html><head lang="en"><title>T</title></head></html>'') = allAbsent\<close>
proof -
  have h: \<open>\<not> ci_substring ''<head>'' ''<html><head lang="en"><title>T</title></head></html>''\<close>
    by (simp add: lowerChar_Char)
  show ?thesis by (rule conjI [OF h head_needs_literal_tag [OF h]])
qed

text \<open>
  Attributes on the head element alone do not empty the record: the pattern takes the text
  \<^verbatim>\<open><head>\<close> wherever it stands, here in a comment inside a head whose own tag has an
  attribute.
\<close>

theorem head_with_attributes_counterexample:
  \<open>getMetadata (JSString ''<html><head lang="en"><!-- <head> --><title>T</title></head></html>'')
     = allAbsent\<lparr>title := Some ''T''\<rparr>\<close>
  by (simp add: getMetadata_eval)

section \<open>The filter\<close>

text \<open>
  C2. For an array of records and a non-empty query, \<^verbatim>\<open>filterMetadata\<close> returns, in the order
  of the array, exactly the records whose combined text (the six values in lower case,
  joined by single spaces, special characters stripped) has at least one of the tokens of
  the query as a case-insensitive literal substring.
\<close>

theorem filterMetadata_matches:
  "q \<noteq> [] \<Longrightarrow>
   filterMetadata (JSArray ms) (JSString q) =
     filter (\<lambda>m. list_ex (\<lambda>t. ci_substring t (spec_combinedText m)) (getQueryArray q)) ms"
  by (simp add: filterMetadata_def js_not_def doesMetadataMatch_spec)

theorem filterMetadata_matches_witness:
  "filterMetadata
     (JSArray [allAbsent\<lparr>title := Some ''Hot Dogs''\<rparr>,
               allAbsent\<lparr>title := Some ''Birds''\<rparr>,
               allAbsent\<lparr>keywords := Some [''con'', ''CAT'']\<rparr>])
     (JSString ''cat dog'') =
   [allAbsent\<lparr>title := Some ''Hot Dogs''\<rparr>, allAbsent\<lparr>keywords := Some [''con'', ''CAT'']\<rparr>]"
  using filterMetadata_matches
    [of "''cat dog''" "[allAbsent\<lparr>title := Some ''Hot Dogs''\<rparr>,
               allAbsent\<lparr>title := Some ''Birds''\<rparr>,
               allAbsent\<lparr>keywords := Some [''con'', ''CAT'']\<rparr>]"]
  by (simp add: filter_eval)

text \<open>
  C3. The tokens of a query: the query is split at every single space (joining the words
  with single spaces gives the query back, and no word has a space); a word without special
  character is kept as it is; a word with one gives the pieces between its special
  characters, one more than it has special characters, then the word with the special
  characters removed, which is the concatenation of the pieces, then the word itself; the
  tokens of all words, in order, without those of length at most 1, are the result. So the
  query \<^verbatim>\<open>light-year\<close> has the token \<^verbatim>\<open>lightyear\<close> and matches a record one of whose values
  (a string field or a keyword) contains that text, and the query \<^verbatim>\<open>a\<close> has no token and matches no record.
\<close>

theorem query_tokens:
  "getQueryArray q =
     filter (\<lambda>t. 1 < length t) (concat (map handleSpecialChars (splitAt (\<lambda>c. c = SP) q))) \<and>
   joinStrings '' '' (splitAt (\<lambda>c. c = SP) q) = q \<and>
   (\<forall>w\<in>set (splitAt (\<lambda>c. c = SP) q). SP \<notin> set w) \<and>
   ((\<forall>c\<in>set w. \<not> SPECIAL_CHARS_REGEXP c) \<longrightarrow> handleSpecialChars w = [w]) \<and>
   ((\<exists>c\<in>set w. SPECIAL_CHARS_REGEXP c) \<longrightarrow>
      handleSpecialChars w =
        splitAt SPECIAL_CHARS_REGEXP w @ [filter (\<lambda>c. \<not> SPECIAL_CHARS_REGEXP c) w, w] \<and>
      length (splitAt SPECIAL_CHARS_REGEXP w) = Suc (length (filter SPECIAL_CHARS_REGEXP w)) \<and>
      concat (splitAt SPECIAL_CHARS_REGEXP w) = filter (\<lambda>c. \<not> SPECIAL_CHARS_REGEXP c) w) \<and>
   (\<forall>t\<in>set (getQueryArray q). 1 < length t) \<and>
   getQueryArray ''light-year'' = [''light'', ''year'', ''lightyear'', ''light-year''] \<and>
   ((url m = Some x \<or> siteName m = Some x \<or> title m = Some x \<or> description m = Some x \<or>
     author m = Some x \<or> (\<exists>ks. keywords m = Some ks \<and> x \<in> set ks)) \<and>
    x = pre @ ''lightyear'' @ post \<longrightarrow>
      filterMetadata (JSArray [m]) (JSString ''light-year'') = [m]) \<and>
   getQueryArray ''a'' = [] \<and>
   filterMetadata (JSArray ms) (JSString ''a'') = []"
proof -
  have a: "getQueryArray ''a'' = []"
    by (simp add: getQueryArray_def handleSpecialChars_def SPECIAL_CHARS_REGEXP_def SP_def)
  have b: "filterMetadata (JSArray ms) (JSString ''a'') = []"
    by (simp add: filterMetadata_def js_not_def a doesMetadataMatch_def)
  have c: "filterMetadata (JSArray [m]) (JSString ''light-year'') = [m]"
    if f: "url m = Some x \<or> siteName m = Some x \<or> title m = Some x \<or> description m = Some x \<or>
        author m = Some x \<or> (\<exists>ks. keywords m = Some ks \<and> x \<in> set ks)"
      and x: "x = pre @ ''lightyear'' @ post"
  proof -
    have "includesStr x ''lightyear''"
      unfolding includesStr_iff using x by blast
    then show ?thesis
      using lightyear_match [OF field_in_values [OF f]]
      by (simp add: filterMetadata_def js_not_def)
  qed
  have d: "joinStrings '' '' (splitAt (\<lambda>c. c = SP) q) = q"
    using joinStrings_splitAt [of SP q] by (simp add: SP_def)
  have e: "\<forall>w\<in>set (splitAt (\<lambda>c. c = SP) q). SP \<notin> set w"
    using splitAt_pieces [of _ "\<lambda>c. c = SP" q] by auto
  have f: "(\<forall>c\<in>set w. \<not> SPECIAL_CHARS_REGEXP c) \<longrightarrow> handleSpecialChars w = [w]"
    by (simp add: handleSpecialChars_def list_ex_iff)
  have g: "(\<exists>c\<in>set w. SPECIAL_CHARS_REGEXP c) \<longrightarrow>
      handleSpecialChars w =
        splitAt SPECIAL_CHARS_REGEXP w @ [filter (\<lambda>c. \<not> SPECIAL_CHARS_REGEXP c) w, w]"
    by (simp add: handleSpecialChars_def list_ex_iff)
  have h: "\<forall>t\<in>set (getQueryArray q). 1 < length t"
    by (simp add: getQueryArray_def)
  show ?thesis
    using a b c d e f g h getQueryArray_concat [of q] getQueryArray_light_year
      length_splitAt [of SPECIAL_CHARS_REGEXP w] concat_splitAt [of SPECIAL_CHARS_REGEXP w]
    by blast
qed

theorem query_tokens_witness:
  "getQueryArray ''cat  dog a-b -x- .'' = [''cat'', ''dog'', ''ab'', ''a-b'', ''-x-''] \<and>
   handleSpecialChars ''cat'' = [''cat''] \<and>
   handleSpecialChars ''a.b-c'' = [''a'', ''b'', ''c'', ''abc'', ''a.b-c''] \<and>
   filterMetadata (JSArray [allAbsent\<lparr>title := Some ''The lightyear story''\<rparr>]) (JSString ''light-year'')
     = [allAbsent\<lparr>title := Some ''The lightyear story''\<rparr>] \<and>
   filterMetadata (JSArray [allAbsent\<lparr>title := Some ''a''\<rparr>]) (JSString ''a'') = []"
proof -
  note t = query_tokens [of "''cat  dog a-b -x- .''" "''cat''"
      "allAbsent\<lparr>title := Some ''The lightyear story''\<rparr>" "''The lightyear story''"
      "''The ''" "'' story''" "[allAbsent\<lparr>title := Some ''a''\<rparr>]"]
  note u = query_tokens [of "[]" "''a.b-c''" allAbsent "[]" "[]" "[]" "[]"]
  have s: "splitAt (\<lambda>c. c = SP) ''cat  dog a-b -x- .'' = [''cat'', [], ''dog'', ''a-b'', ''-x-'', ''.'']"
    by (simp add: SP_def)
  have h: "handleSpecialChars [] = [[]]"
    "handleSpecialChars ''dog'' = [''dog'']" "handleSpecialChars ''a-b'' = [''a'', ''b'', ''ab'', ''a-b'']"
    "handleSpecialChars ''-x-'' = [[], ''x'', [], ''x'', ''-x-'']"
    "handleSpecialChars ''.'' = [[], [], [], ''.'']"
    by (simp_all add: handleSpecialChars_def SPECIAL_CHARS_REGEXP_def)
  have p: "\<forall>c\<in>set ''cat''. \<not> SPECIAL_CHARS_REGEXP c" "\<exists>c\<in>set ''a.b-c''. SPECIAL_CHARS_REGEXP c"
    by (simp_all add: SPECIAL_CHARS_REGEXP_def)
  have q: "splitAt SPECIAL_CHARS_REGEXP ''a.b-c'' = [''a'', ''b'', ''c'']"
    "filter (\<lambda>c. \<not> SPECIAL_CHARS_REGEXP c) ''a.b-c'' = ''abc''"
    by (simp_all add: SPECIAL_CHARS_REGEXP_def)
  have 2: "handleSpecialChars ''cat'' = [''cat'']"
    using t p(1) by blast
  have 1: "getQueryArray ''cat  dog a-b -x- .'' = [''cat'', ''dog'', ''ab'', ''a-b'', ''-x-'']"
    unfolding t [THEN conjunct1] s by (simp add: h 2)
  have "handleSpecialChars ''a.b-c'' =
      splitAt SPECIAL_CHARS_REGEXP ''a.b-c'' @ [filter (\<lambda>c. \<not> SPECIAL_CHARS_REGEXP c) ''a.b-c'', ''a.b-c'']"
    using u p(2) by blast
  then have 3: "handleSpecialChars ''a.b-c'' = [''a'', ''b'', ''c'', ''abc'', ''a.b-c'']"
    unfolding q by simp
  have "title (allAbsent\<lparr>title := Some ''The lightyear story''\<rparr>) = Some ''The lightyear story''"
    and "''The lightyear story'' = ''The '' @ ''lightyear'' @ '' story''"
    by simp_all
  then have 4: "filterMetadata (JSArray [allAbsent\<lparr>title := Some ''The lightyear story''\<rparr>]) (JSString ''light-year'')
     = [allAbsent\<lparr>title := Some ''The lightyear story''\<rparr>]"
    using t by blast
  have 5: "filterMetadata (JSArray [allAbsent\<lparr>title := Some ''a''\<rparr>]) (JSString ''a'') = []"
    using t by blast
  show ?thesis using 1 2 3 4 5 by blast
qed

text \<open>
  C5. \<^verbatim>\<open>filterMetadata\<close> returns the empty array when its first argument is not an array or
  its second is not a string; with the empty string as query it returns the array it was
  given, unchanged; and the empty array is filtered to the empty array by every query.
\<close>

theorem filterMetadata_degenerate:
  "(\<not> isArray records \<or> typeof query \<noteq> ''string'' \<longrightarrow> filterMetadata records query = []) \<and>
   filterMetadata (JSArray ms) (JSString []) = ms \<and>
   filterMetadata (JSArray []) (JSString q) = []"
  by (auto simp: filterMetadata_def js_not_def split: js_value.splits)

theorem filterMetadata_degenerate_witness:
  "filterMetadata JSNull (JSString ''cat'') = [] \<and>
   filterMetadata JSObject (JSString []) = [] \<and>
   filterMetadata (JSArray [allAbsent]) (JSNumber 3) = [] \<and>
   filterMetadata (JSArray [allAbsent]) JSUndefined = [] \<and>
   filterMetadata (JSArray [allAbsent\<lparr>title := Some ''b''\<rparr>, allAbsent, allAbsent\<lparr>title := Some ''a''\<rparr>])
     (JSString []) = [allAbsent\<lparr>title := Some ''b''\<rparr>, allAbsent, allAbsent\<lparr>title := Some ''a''\<rparr>] \<and>
   filterMetadata (JSArray []) (JSString ''anything'') = []"
  using filterMetadata_degenerate [of JSNull "JSString ''cat''"]
    filterMetadata_degenerate [of JSObject "JSString []"]
    filterMetadata_degenerate [of "JSArray [allAbsent]" "JSNumber 3"]
    filterMetadata_degenerate [of "JSArray [allAbsent]" JSUndefined]
    filterMetadata_degenerate
      [of _ _ "[allAbsent\<lparr>title := Some ''b''\<rparr>, allAbsent, allAbsent\<lparr>title := Some ''a''\<rparr>]" "''anything''"]
  by simp

text \<open>
  C9 (amended). In the text a record is matched against, an absent field contributes the
  empty text, exactly as a field holding the empty string or the empty array does; the text
  \<^verbatim>\<open>null\<close> is not inserted. Consequently the record whose six fields are absent is flattened
  to the five separating spaces and is matched by no token of any query.
\<close>

theorem absent_contributes_nothing:
  "formatMetadataValues (m\<lparr>url := None\<rparr>) = formatMetadataValues (m\<lparr>url := Some []\<rparr>) \<and>
   formatMetadataValues (m\<lparr>siteName := None\<rparr>) = formatMetadataValues (m\<lparr>siteName := Some []\<rparr>) \<and>
   formatMetadataValues (m\<lparr>title := None\<rparr>) = formatMetadataValues (m\<lparr>title := Some []\<rparr>) \<and>
   formatMetadataValues (m\<lparr>description := None\<rparr>) = formatMetadataValues (m\<lparr>description := Some []\<rparr>) \<and>
   formatMetadataValues (m\<lparr>keywords := None\<rparr>) = formatMetadataValues (m\<lparr>keywords := Some []\<rparr>) \<and>
   formatMetadataValues (m\<lparr>author := None\<rparr>) = formatMetadataValues (m\<lparr>author := Some []\<rparr>) \<and>
   formatMetadataValues allAbsent = ''     '' \<and>
   \<not> doesMetadataMatch allAbsent (getQueryArray q) \<and>
   (q \<noteq> [] \<longrightarrow> filterMetadata (JSArray [allAbsent]) (JSString q) = [])"
  using allAbsent_no_match [of q]
  by (simp add: formatMetadataValues_allAbsent filterMetadata_def js_not_def)
     (simp add: formatMetadataValues_def Object_values_def join_def)

theorem absent_contributes_nothing_witness:
  "formatMetadataValues (allAbsent\<lparr>title := Some ''Null Island'', author := None\<rparr>) = ''  null island   '' \<and>
   formatMetadataValues (allAbsent\<lparr>title := Some ''Null Island'', author := Some []\<rparr>) = ''  null island   '' \<and>
   \<not> doesMetadataMatch allAbsent (getQueryArray ''null'') \<and>
   filterMetadata (JSArray [allAbsent]) (JSString ''null'') = []"
proof -
  have "formatMetadataValues (allAbsent\<lparr>title := Some ''Null Island'', author := Some []\<rparr>) = ''  null island   ''"
    by (simp add: filter_eval)
  then show ?thesis
    using absent_contributes_nothing [of "allAbsent\<lparr>title := Some ''Null Island''\<rparr>" "''null''"]
    by simp
qed

text \<open>
  The query \<^verbatim>\<open>null\<close> has the one token \<^verbatim>\<open>null\<close>, and it does not match the record whose
  fields are all absent.
\<close>

theorem absent_is_not_null_counterexample:
  "getQueryArray ''null'' = [''null''] \<and>
   formatMetadataValues allAbsent = ''     '' \<and>
   \<not> doesMetadataMatch allAbsent (getQueryArray ''null'') \<and>
   filterMetadata (JSArray [allAbsent]) (JSString ''null'') = []"
  by (simp add: filter_eval filterMetadata_def js_not_def)

end
